theory Spec2Isabelle
  imports Complex_Main
begin

section \<open>The metric simulator of dp\_fl\_dashboard.py\<close>

text \<open>
  The function \<open>simulate_federated_training\<close> of \<open>src/dp_fl_dashboard.py\<close> is embedded
  statement by statement. Python ints are \<open>int\<close>; Python floats are idealised as \<open>real\<close>
  (no rounding, no infinities), so every equation below is one of exact arithmetic.
  With it the conversion of an int to a float, which the source performs on \<open>rnd\<close> in
  lines 22, 31 and 32 and on \<open>num_clients\<close> in line 28, is the total \<open>real_of_int\<close>:
  Python performs it for an int of magnitude below \<open>2 ^ 1024 - 2 ^ 970\<close> and raises
  \<open>OverflowError\<close> for any other, so beyond that magnitude the embedding no longer
  tells what the source does.
  The two effects of the function are made explicit in a \<open>world\<close> that is threaded through
  the computation: the number of calls made to the random source so far, and the time
  spent in \<open>time.sleep\<close>. The random source itself is a parameter \<open>g\<close>: the \<open>k\<close>-th call
  of \<open>random.random()\<close> returns \<open>g k\<close>.
\<close>

subsection \<open>Errors, effects and the Python primitives used\<close>

datatype error = ZeroDivisionError | IndexError

record world =
  rng_calls :: nat
  slept :: real

type_synonym rng = "nat \<Rightarrow> real"

text \<open>\<open>random.random()\<close>: the next number of the source.\<close>

definition random_random :: "rng \<Rightarrow> world \<Rightarrow> real \<times> world" where
  "random_random g w = (g (rng_calls w), w\<lparr>rng_calls := rng_calls w + 1\<rparr>)"

text \<open>\<open>random.uniform(a, b)\<close>, which the standard library computes as
  \<open>a + (b - a) * self.random()\<close> with one call of \<open>random()\<close>.\<close>

definition random_uniform :: "rng \<Rightarrow> real \<Rightarrow> real \<Rightarrow> world \<Rightarrow> real \<times> world" where
  "random_uniform g a b w = (case random_random g w of (x, w') \<Rightarrow> (a + (b - a) * x, w'))"

text \<open>\<open>time.sleep(d)\<close>.\<close>

definition time_sleep :: "real \<Rightarrow> world \<Rightarrow> world" where
  "time_sleep d w = w\<lparr>slept := slept w + d\<rparr>"

text \<open>\<open>range(lo, hi)\<close>: the integers \<open>lo \<le> i < hi\<close>, none when \<open>hi \<le> lo\<close>.\<close>

definition range_py :: "int \<Rightarrow> int \<Rightarrow> int list" where
  "range_py lo hi = [lo..hi - 1]"

text \<open>Subscripting a sequence of length \<open>n\<close> with \<open>i\<close>: a negative index counts from the
  end, and an index out of range raises \<open>IndexError\<close>.\<close>

definition index_py :: "nat \<Rightarrow> int \<Rightarrow> error + nat" where
  "index_py n i =
     (let j = (if i < 0 then int n + i else i)
      in if 0 \<le> j \<and> j < int n then Inr (nat j) else Inl IndexError)"

subsection \<open>The data of a run\<close>

text \<open>One dictionary appended to \<open>results\<close> (lines 37 to 43); the fields are its keys.\<close>

record round_record =
  rr_round :: int
  rr_global_accuracy :: real
  rr_epsilon_advanced :: real
  rr_epsilon_naive :: real
  rr_client_accuracies :: "real list"

text \<open>The local variables of \<open>simulate_federated_training\<close>, and the world.\<close>

record frame =
  results :: "round_record list"
  global_epsilon :: real
  naive_epsilon :: real
  client_accuracies :: "real list list"
  global_accuracy :: real
  per_client_acc :: "real list"
  wld :: world

subsection \<open>The function\<close>

text \<open>Line 14: \<open>[[random.uniform(0.4, 0.6)] for _ in range(num_clients)]\<close>.\<close>

fun init_accuracies :: "rng \<Rightarrow> int list \<Rightarrow> world \<Rightarrow> real list list \<times> world" where
  "init_accuracies g [] w = ([], w)"
| "init_accuracies g (c # cs) w =
     (case random_uniform g 0.4 0.6 w of (x, w1) \<Rightarrow>
        (case init_accuracies g cs w1 of (rest, w2) \<Rightarrow> ([x] # rest, w2)))"

text \<open>Lines 22 to 26: the body of the loop over the clients.\<close>

definition client_body :: "rng \<Rightarrow> real \<Rightarrow> int \<Rightarrow> int \<Rightarrow> frame \<Rightarrow> error + frame" where
  "client_body g noise_multiplier rnd c s =
     (case random_uniform g 0.01 0.03 (wld s) of (u, w1) \<Rightarrow>
        let acc_increment = u + 0.005 * real_of_int rnd - 0.01 * noise_multiplier in
        (case index_py (length (client_accuracies s)) c of
           Inl e \<Rightarrow> Inl e
         | Inr i \<Rightarrow>
             let track = client_accuracies s ! i in
             (case index_py (length track) (- 1) of
                Inl e \<Rightarrow> Inl e
              | Inr j \<Rightarrow>
                  let new_acc = min (track ! j + acc_increment) 1.0 in
                  Inr (s\<lparr>client_accuracies := (client_accuracies s)[i := track @ [new_acc]],
                         per_client_acc := per_client_acc s @ [new_acc],
                         global_accuracy := global_accuracy s + new_acc,
                         wld := w1\<rparr>))))"

text \<open>Line 21: \<open>for c in range(num_clients)\<close>.\<close>

fun client_loop :: "rng \<Rightarrow> real \<Rightarrow> int \<Rightarrow> int list \<Rightarrow> frame \<Rightarrow> error + frame" where
  "client_loop g noise_multiplier rnd [] s = Inr s"
| "client_loop g noise_multiplier rnd (c # cs) s =
     (case client_body g noise_multiplier rnd c s of
        Inl e \<Rightarrow> Inl e
      | Inr s' \<Rightarrow> client_loop g noise_multiplier rnd cs s')"

text \<open>Lines 17 to 45: the body of the loop over the rounds. Dividing the float
  \<open>global_accuracy\<close> by the int \<open>num_clients\<close> raises \<open>ZeroDivisionError\<close> when the
  latter is 0.\<close>

definition round_body :: "rng \<Rightarrow> int \<Rightarrow> real \<Rightarrow> int \<Rightarrow> frame \<Rightarrow> error + frame" where
  "round_body g num_clients noise_multiplier rnd s =
     (let s1 = s\<lparr>global_accuracy := 0.0, per_client_acc := []\<rparr> in
      case client_loop g noise_multiplier rnd (range_py 0 num_clients) s1 of
        Inl e \<Rightarrow> Inl e
      | Inr s2 \<Rightarrow>
          if num_clients = 0 then Inl ZeroDivisionError
          else
            let s3 = s2\<lparr>global_accuracy := global_accuracy s2 / real_of_int num_clients\<rparr>;
                eps_increment_adv = 0.2 + 0.1 * real_of_int rnd - 0.05 * noise_multiplier;
                eps_increment_naive = 0.5 + 0.2 * real_of_int rnd;
                s4 = s3\<lparr>global_epsilon := global_epsilon s3 + max eps_increment_adv 0.1\<rparr>;
                s5 = s4\<lparr>naive_epsilon := naive_epsilon s4 + eps_increment_naive\<rparr>;
                s6 = s5\<lparr>results := results s5 @
                       [\<lparr>rr_round = rnd,
                         rr_global_accuracy = global_accuracy s5,
                         rr_epsilon_advanced = global_epsilon s5,
                         rr_epsilon_naive = naive_epsilon s5,
                         rr_client_accuracies = per_client_acc s5\<rparr>]\<rparr>
            in Inr (s6\<lparr>wld := time_sleep 0.5 (wld s6)\<rparr>))"

text \<open>Line 16: \<open>for rnd in range(1, num_rounds + 1)\<close>.\<close>

fun round_loop :: "rng \<Rightarrow> int \<Rightarrow> real \<Rightarrow> int list \<Rightarrow> frame \<Rightarrow> error + frame" where
  "round_loop g num_clients noise_multiplier [] s = Inr s"
| "round_loop g num_clients noise_multiplier (rnd # rnds) s =
     (case round_body g num_clients noise_multiplier rnd s of
        Inl e \<Rightarrow> Inl e
      | Inr s' \<Rightarrow> round_loop g num_clients noise_multiplier rnds s')"

text \<open>The whole function: on success the pair it returns, and the world it leaves.
  Before the first round \<open>global_accuracy\<close> and \<open>per_client_acc\<close> are not bound; the
  frame holds 0 and the empty list there, and every round assigns both before reading
  them.\<close>

definition simulate_federated_training ::
  "rng \<Rightarrow> int \<Rightarrow> real \<Rightarrow> int \<Rightarrow> world \<Rightarrow>
     error + ((round_record list \<times> real list list) \<times> world)" where
  "simulate_federated_training g num_clients noise_multiplier num_rounds w =
     (case init_accuracies g (range_py 0 num_clients) w of (cas, w1) \<Rightarrow>
        let s0 = \<lparr>results = [], global_epsilon = 0.0, naive_epsilon = 0.0,
                  client_accuracies = cas, global_accuracy = 0.0, per_client_acc = [],
                  wld = w1\<rparr>
        in (case round_loop g num_clients noise_multiplier (range_py 1 (num_rounds + 1)) s0 of
              Inl e \<Rightarrow> Inl e
            | Inr s \<Rightarrow> Inr ((results s, client_accuracies s), wld s)))"

subsection \<open>The run in closed form\<close>

text \<open>
  The functions below describe, by recursion on the round, the values a run computes:
  they are proved equal to what the embedded code returns and serve the proofs only.
  \<open>k\<close> is the number of calls the random source has served before the run, \<open>n\<close> the number
  of clients, \<open>c\<close> a client and \<open>r\<close> a round; call \<open>j\<close> of the source is the one that
  returns \<open>g j\<close>.
\<close>

definition step_acc :: "rng \<Rightarrow> real \<Rightarrow> int \<Rightarrow> nat \<Rightarrow> real \<Rightarrow> real" where
  "step_acc g nm rnd j prev =
     min (prev + (0.01 + (0.03 - 0.01) * g j + 0.005 * real_of_int rnd - 0.01 * nm)) 1.0"

fun acc_at :: "rng \<Rightarrow> real \<Rightarrow> nat \<Rightarrow> nat \<Rightarrow> nat \<Rightarrow> nat \<Rightarrow> real" where
  "acc_at g nm n k c 0 = 0.4 + (0.6 - 0.4) * g (k + c)"
| "acc_at g nm n k c (Suc r) =
     step_acc g nm (int (Suc r)) (k + n + r * n + c) (acc_at g nm n k c r)"

fun eps_adv_at :: "real \<Rightarrow> nat \<Rightarrow> real" where
  "eps_adv_at nm 0 = 0"
| "eps_adv_at nm (Suc r) = eps_adv_at nm r + max (0.2 + 0.1 * real (Suc r) - 0.05 * nm) 0.1"

fun eps_naive_at :: "nat \<Rightarrow> real" where
  "eps_naive_at 0 = 0"
| "eps_naive_at (Suc r) = eps_naive_at r + (0.5 + 0.2 * real (Suc r))"

definition round_accs :: "rng \<Rightarrow> real \<Rightarrow> nat \<Rightarrow> nat \<Rightarrow> nat \<Rightarrow> real list" where
  "round_accs g nm n k r = map (\<lambda>c. acc_at g nm n k c r) [0..<n]"

definition record_at :: "rng \<Rightarrow> int \<Rightarrow> real \<Rightarrow> nat \<Rightarrow> nat \<Rightarrow> round_record" where
  "record_at g nc nm k r =
     \<lparr>rr_round = int r,
      rr_global_accuracy = sum_list (round_accs g nm (nat nc) k r) / real_of_int nc,
      rr_epsilon_advanced = eps_adv_at nm r,
      rr_epsilon_naive = eps_naive_at r,
      rr_client_accuracies = round_accs g nm (nat nc) k r\<rparr>"

subsection \<open>Notions the properties are stated with\<close>

text \<open>The arithmetic mean of a sequence, and the value the \<open>j\<close>-th call of the random source
  yields when that call is a \<open>random.uniform(a, b)\<close>.\<close>

definition arithmetic_mean :: "real list \<Rightarrow> real" where
  "arithmetic_mean xs = sum_list xs / real (length xs)"

definition uniform_draw :: "rng \<Rightarrow> real \<Rightarrow> real \<Rightarrow> nat \<Rightarrow> real" where
  "uniform_draw g a b j = fst (random_uniform g a b \<lparr>rng_calls = j, slept = 0\<rparr>)"


section \<open>The loops compute the closed form\<close>

lemma upto_nat: "[int a..int b - 1] = map int [a..<b]"
proof (induction b)
  case 0
  then show ?case by simp
next
  case (Suc b)
  show ?case
  proof (cases "a \<le> b")
    case True
    then have "[int a..int (Suc b) - 1] = [int a..int b - 1] @ [int b]"
      using upto_rec2 [of "int a" "int b"] by simp
    with Suc True show ?thesis by simp
  next
    case False
    then show ?thesis by simp
  qed
qed

lemma range_py_clients: "range_py 0 nc = map int [0..<nat nc]"
proof (cases "0 \<le> nc")
  case True
  then show ?thesis using upto_nat [of 0 "nat nc"] by (simp add: range_py_def)
next
  case False
  then show ?thesis by (simp add: range_py_def)
qed

lemma range_py_rounds: "range_py 1 (nr + 1) = map int [1..<Suc (nat nr)]"
proof (cases "0 \<le> nr")
  case True
  then show ?thesis using upto_nat [of 1 "Suc (nat nr)"] by (simp add: range_py_def)
next
  case False
  then show ?thesis by (simp add: range_py_def)
qed

lemma init_accuracies_closed:
  "init_accuracies g cs w =
     (map (\<lambda>c. [0.4 + (0.6 - 0.4) * g (rng_calls w + c)]) [0..<length cs],
      w\<lparr>rng_calls := rng_calls w + length cs\<rparr>)"
proof (induction cs arbitrary: w)
  case Nil
  then show ?case by simp
next
  case (Cons c cs)
  have "map (\<lambda>c. [0.4 + (0.6 - 0.4) * g (rng_calls w + c)]) [0..<Suc (length cs)] =
        [0.4 + (0.6 - 0.4) * g (rng_calls w)] #
        map (\<lambda>c. [0.4 + (0.6 - 0.4) * g (Suc (rng_calls w) + c)]) [0..<length cs]"
    by (simp add: upt_conv_Cons map_Suc_upt [symmetric] del: upt_Suc)
  with Cons show ?case
    by (simp add: random_uniform_def random_random_def)
qed

lemma client_loop_snoc:
  "client_loop g nm rnd (cs @ [c]) s =
     (case client_loop g nm rnd cs s of Inl e \<Rightarrow> Inl e | Inr s' \<Rightarrow> client_body g nm rnd c s')"
  by (induction cs arbitrary: s) (auto split: sum.splits)

lemma round_loop_snoc:
  "round_loop g nc nm (rs @ [r]) s =
     (case round_loop g nc nm rs s of Inl e \<Rightarrow> Inl e | Inr s' \<Rightarrow> round_body g nc nm r s')"
  by (induction rs arbitrary: s) (auto split: sum.splits)



lemma index_py_nat: "c < n \<Longrightarrow> index_py n (int c) = Inr c"
  by (simp add: index_py_def)

lemma index_py_last: "0 < n \<Longrightarrow> index_py n (- 1) = Inr (n - 1)"
  by (simp add: index_py_def Let_def nat_diff_distrib')

lemma client_body_ok:
  assumes "c < length (client_accuracies s)" and "client_accuracies s ! c \<noteq> []"
  shows "client_body g nm rnd (int c) s =
     Inr (s\<lparr>client_accuracies := (client_accuracies s)
                [c := client_accuracies s ! c @
                   [step_acc g nm rnd (rng_calls (wld s)) (last (client_accuracies s ! c))]],
            per_client_acc := per_client_acc s @
                   [step_acc g nm rnd (rng_calls (wld s)) (last (client_accuracies s ! c))],
            global_accuracy := global_accuracy s +
                   step_acc g nm rnd (rng_calls (wld s)) (last (client_accuracies s ! c)),
            wld := (wld s)\<lparr>rng_calls := rng_calls (wld s) + 1\<rparr>\<rparr>)"
proof -
  from assms(2) have "0 < length (client_accuracies s ! c)" by simp
  then have "index_py (length (client_accuracies s ! c)) (- 1) =
             Inr (length (client_accuracies s ! c) - 1)"
    by (rule index_py_last)
  moreover have "client_accuracies s ! c ! (length (client_accuracies s ! c) - 1) =
                 last (client_accuracies s ! c)"
    using assms(2) by (simp add: last_conv_nth)
  ultimately show ?thesis
    using assms(1)
    by (simp add: client_body_def random_uniform_def random_random_def index_py_nat
        step_acc_def Let_def)
qed

lemma client_loop_upt:
  assumes "m \<le> length (client_accuracies s)"
    and "\<forall>t \<in> set (client_accuracies s). t \<noteq> []"
  shows "client_loop g nm rnd (map int [0..<m]) s =
     Inr (s\<lparr>client_accuracies :=
              map (\<lambda>c. if c < m
                     then client_accuracies s ! c @
                       [step_acc g nm rnd (rng_calls (wld s) + c) (last (client_accuracies s ! c))]
                     else client_accuracies s ! c) [0..<length (client_accuracies s)],
            per_client_acc := per_client_acc s @
              map (\<lambda>c. step_acc g nm rnd (rng_calls (wld s) + c) (last (client_accuracies s ! c)))
                [0..<m],
            global_accuracy := global_accuracy s +
              sum_list (map (\<lambda>c. step_acc g nm rnd (rng_calls (wld s) + c)
                 (last (client_accuracies s ! c))) [0..<m]),
            wld := (wld s)\<lparr>rng_calls := rng_calls (wld s) + m\<rparr>\<rparr>)"
  using assms(1)
proof (induction m)
  case 0
  then show ?case by (simp add: map_nth)
next
  case (Suc m)
  let ?T = "client_accuracies s"
  let ?nv = "\<lambda>c. step_acc g nm rnd (rng_calls (wld s) + c) (last (?T ! c))"
  let ?s' = "s\<lparr>client_accuracies :=
              map (\<lambda>c. if c < m then ?T ! c @ [?nv c] else ?T ! c) [0..<length ?T],
            per_client_acc := per_client_acc s @ map ?nv [0..<m],
            global_accuracy := global_accuracy s + sum_list (map ?nv [0..<m]),
            wld := (wld s)\<lparr>rng_calls := rng_calls (wld s) + m\<rparr>\<rparr>"
  from Suc have IH: "client_loop g nm rnd (map int [0..<m]) s = Inr ?s'" by simp
  from Suc.prems have m: "m < length ?T" by simp
  then have ne: "?T ! m \<noteq> []" using assms(2) by simp
  have upd: "(map (\<lambda>c. if c < m then ?T ! c @ [?nv c] else ?T ! c) [0..<length ?T])
               [m := ?T ! m @ [?nv m]] =
             map (\<lambda>c. if c < Suc m then ?T ! c @ [?nv c] else ?T ! c) [0..<length ?T]"
    by (rule nth_equalityI) (auto simp: nth_list_update less_Suc_eq)
  have "client_loop g nm rnd (map int [0..<Suc m]) s = client_body g nm rnd (int m) ?s'"
    using IH by (simp add: client_loop_snoc)
  also have "\<dots> = Inr (?s'\<lparr>client_accuracies := (client_accuracies ?s')
                [m := client_accuracies ?s' ! m @
                   [step_acc g nm rnd (rng_calls (wld ?s')) (last (client_accuracies ?s' ! m))]],
            per_client_acc := per_client_acc ?s' @
                   [step_acc g nm rnd (rng_calls (wld ?s')) (last (client_accuracies ?s' ! m))],
            global_accuracy := global_accuracy ?s' +
                   step_acc g nm rnd (rng_calls (wld ?s')) (last (client_accuracies ?s' ! m)),
            wld := (wld ?s')\<lparr>rng_calls := rng_calls (wld ?s') + 1\<rparr>\<rparr>)"
    using m ne by (intro client_body_ok) simp_all
  also have "\<dots> = Inr (s\<lparr>client_accuracies :=
              map (\<lambda>c. if c < Suc m then ?T ! c @ [?nv c] else ?T ! c) [0..<length ?T],
            per_client_acc := per_client_acc s @ map ?nv [0..<Suc m],
            global_accuracy := global_accuracy s + sum_list (map ?nv [0..<Suc m]),
            wld := (wld s)\<lparr>rng_calls := rng_calls (wld s) + Suc m\<rparr>\<rparr>)"
    using m upd by simp
  finally show ?case .
qed


lemma round_body_ok:
  assumes "length (client_accuracies s) = nat nc"
    and "\<forall>t \<in> set (client_accuracies s). t \<noteq> []"
    and "nc \<noteq> 0"
  shows "round_body g nc nm rnd s =
     Inr \<lparr>results = results s @
            [\<lparr>rr_round = rnd,
              rr_global_accuracy =
                sum_list (map (\<lambda>c. step_acc g nm rnd (rng_calls (wld s) + c)
                   (last (client_accuracies s ! c))) [0..<nat nc]) / real_of_int nc,
              rr_epsilon_advanced =
                global_epsilon s + max (0.2 + 0.1 * real_of_int rnd - 0.05 * nm) 0.1,
              rr_epsilon_naive = naive_epsilon s + (0.5 + 0.2 * real_of_int rnd),
              rr_client_accuracies =
                map (\<lambda>c. step_acc g nm rnd (rng_calls (wld s) + c)
                   (last (client_accuracies s ! c))) [0..<nat nc]\<rparr>],
          global_epsilon = global_epsilon s + max (0.2 + 0.1 * real_of_int rnd - 0.05 * nm) 0.1,
          naive_epsilon = naive_epsilon s + (0.5 + 0.2 * real_of_int rnd),
          client_accuracies =
            map (\<lambda>c. client_accuracies s ! c @
                   [step_acc g nm rnd (rng_calls (wld s) + c) (last (client_accuracies s ! c))])
              [0..<nat nc],
          global_accuracy =
            sum_list (map (\<lambda>c. step_acc g nm rnd (rng_calls (wld s) + c)
               (last (client_accuracies s ! c))) [0..<nat nc]) / real_of_int nc,
          per_client_acc =
            map (\<lambda>c. step_acc g nm rnd (rng_calls (wld s) + c)
               (last (client_accuracies s ! c))) [0..<nat nc],
          wld = \<lparr>rng_calls = rng_calls (wld s) + nat nc, slept = slept (wld s) + 0.5\<rparr>\<rparr>"
proof -
  let ?s1 = "s\<lparr>global_accuracy := 0.0, per_client_acc := []\<rparr>"
  have "nat nc \<le> length (client_accuracies ?s1)"
    and "\<forall>t \<in> set (client_accuracies ?s1). t \<noteq> []"
    using assms by simp_all
  note loop = client_loop_upt [OF this, of g nm rnd]
  show ?thesis
    unfolding round_body_def range_py_clients Let_def loop
    using assms(1,3) by (simp add: time_sleep_def)
qed

lemma round_loop_closed:
  assumes "nc \<noteq> 0"
    and "client_accuracies s0 = map (\<lambda>c. [acc_at g nm (nat nc) k c 0]) [0..<nat nc]"
    and "results s0 = []" and "global_epsilon s0 = 0" and "naive_epsilon s0 = 0"
    and "wld s0 = \<lparr>rng_calls = k + nat nc, slept = t\<rparr>"
  shows "\<exists>s. round_loop g nc nm (map int [1..<Suc m]) s0 = Inr s \<and>
           results s = map (record_at g nc nm k) [1..<Suc m] \<and>
           global_epsilon s = eps_adv_at nm m \<and>
           naive_epsilon s = eps_naive_at m \<and>
           client_accuracies s =
             map (\<lambda>c. map (acc_at g nm (nat nc) k c) [0..<Suc m]) [0..<nat nc] \<and>
           wld s = \<lparr>rng_calls = k + nat nc + m * nat nc, slept = t + 0.5 * real m\<rparr>"
proof (induction m)
  case 0
  show ?case using assms by simp
next
  case (Suc m)
  then obtain s where run: "round_loop g nc nm (map int [1..<Suc m]) s0 = Inr s"
    and res: "results s = map (record_at g nc nm k) [1..<Suc m]"
    and adv: "global_epsilon s = eps_adv_at nm m"
    and naive: "naive_epsilon s = eps_naive_at m"
    and tracks: "client_accuracies s =
             map (\<lambda>c. map (acc_at g nm (nat nc) k c) [0..<Suc m]) [0..<nat nc]"
    and w: "wld s = \<lparr>rng_calls = k + nat nc + m * nat nc, slept = t + 0.5 * real m\<rparr>"
    by blast
  have len: "length (client_accuracies s) = nat nc" and ne: "\<forall>t \<in> set (client_accuracies s). t \<noteq> []"
    using tracks by auto
  have nv: "map (\<lambda>c. step_acc g nm (int (Suc m)) (rng_calls (wld s) + c)
               (last (client_accuracies s ! c))) [0..<nat nc] =
            round_accs g nm (nat nc) k (Suc m)"
    unfolding round_accs_def using tracks w by (intro map_cong) (simp_all add: add.assoc)
  have ext: "map (\<lambda>c. client_accuracies s ! c @
                   [step_acc g nm (int (Suc m)) (rng_calls (wld s) + c)
                      (last (client_accuracies s ! c))]) [0..<nat nc] =
             map (\<lambda>c. map (acc_at g nm (nat nc) k c) [0..<Suc (Suc m)]) [0..<nat nc]"
    using tracks w by (intro map_cong) (simp_all add: add.assoc)
  have "round_loop g nc nm (map int [1..<Suc (Suc m)]) s0 = round_body g nc nm (int (Suc m)) s"
    using run by (simp add: round_loop_snoc)
  then show ?case
    unfolding round_body_ok [OF len ne assms(1)] nv ext
    using res adv naive w by (simp add: record_at_def algebra_simps)
qed


lemma simulate_closed:
  assumes "nc \<noteq> 0"
  shows "simulate_federated_training g nc nm nr w =
     Inr ((map (record_at g nc nm (rng_calls w)) [1..<Suc (nat nr)],
           map (\<lambda>c. map (acc_at g nm (nat nc) (rng_calls w) c) [0..<Suc (nat nr)]) [0..<nat nc]),
          \<lparr>rng_calls = rng_calls w + nat nc + nat nr * nat nc,
           slept = slept w + 0.5 * real (nat nr)\<rparr>)"
proof -
  let ?s0 = "\<lparr>results = [], global_epsilon = 0.0, naive_epsilon = 0.0,
              client_accuracies =
                map (\<lambda>c. [0.4 + (0.6 - 0.4) * g (rng_calls w + c)]) [0..<nat nc],
              global_accuracy = 0.0, per_client_acc = [],
              wld = w\<lparr>rng_calls := rng_calls w + nat nc\<rparr>\<rparr>"
  have "\<exists>s. round_loop g nc nm (map int [1..<Suc (nat nr)]) ?s0 = Inr s \<and>
           results s = map (record_at g nc nm (rng_calls w)) [1..<Suc (nat nr)] \<and>
           global_epsilon s = eps_adv_at nm (nat nr) \<and>
           naive_epsilon s = eps_naive_at (nat nr) \<and>
           client_accuracies s =
             map (\<lambda>c. map (acc_at g nm (nat nc) (rng_calls w) c) [0..<Suc (nat nr)]) [0..<nat nc] \<and>
           wld s = \<lparr>rng_calls = rng_calls w + nat nc + nat nr * nat nc,
                    slept = slept w + 0.5 * real (nat nr)\<rparr>"
    by (rule round_loop_closed [OF assms]) simp_all
  then show ?thesis
    unfolding simulate_federated_training_def range_py_clients range_py_rounds
      init_accuracies_closed
    by auto
qed



section \<open>Facts about the closed form\<close>

lemma uniform_draw_eq: "uniform_draw g a b j = a + (b - a) * g j"
  by (simp add: uniform_draw_def random_uniform_def random_random_def)

lemma nth_rounds:
  assumes "1 \<le> r" and "r \<le> m"
  shows "map f [1..<Suc m] ! (r - 1) = f r"
proof -
  from assms have "r - 1 < Suc m - 1" by simp
  then have "map f [1..<Suc m] ! (r - 1) = f (1 + (r - 1))"
    by (rule nth_map_upt)
  with assms show ?thesis by simp
qed

lemma eps_adv_at_sum:
  "eps_adv_at nm r = (\<Sum>i = 1..r. max (0.2 + 0.1 * real i - 0.05 * nm) 0.1)"
  by (induction r) simp_all

lemma eps_naive_at_sum: "eps_naive_at r = (\<Sum>i = 1..r. 0.5 + 0.2 * real i)"
  by (induction r) simp_all

lemma eps_adv_at_less: "i < j \<Longrightarrow> eps_adv_at nm i < eps_adv_at nm j"
  by (rule lift_Suc_mono_less) simp

lemma eps_naive_at_Suc: "eps_naive_at r < eps_naive_at (Suc r)"
proof -
  have "0 \<le> real (Suc r)" by (rule of_nat_0_le_iff)
  then have "(0::real) < 5 / 10 + 2 / 10 * real (Suc r)" by linarith
  then show ?thesis unfolding eps_naive_at.simps by linarith
qed

lemma eps_naive_at_less: "i < j \<Longrightarrow> eps_naive_at i < eps_naive_at j"
  by (rule lift_Suc_mono_less) (rule eps_naive_at_Suc)

lemma step_acc_le_1: "step_acc g nm rnd j prev \<le> 1"
  by (simp add: step_acc_def)

lemma acc_at_seed:
  assumes "0 \<le> g (k + c)" and "g (k + c) \<le> 1"
  shows "0.4 \<le> acc_at g nm n k c 0 \<and> acc_at g nm n k c 0 \<le> 0.6"
  using assms by simp

lemma acc_at_le_1:
  assumes "\<forall>j. 0 \<le> g j \<and> g j \<le> 1"
  shows "acc_at g nm n k c r \<le> 1"
proof (cases r)
  case 0
  from assms have "0 \<le> g (k + c)" and "g (k + c) \<le> 1" by simp_all
  with acc_at_seed [of g k c nm n] 0 show ?thesis by simp
next
  case (Suc r')
  then show ?thesis by (simp add: step_acc_le_1)
qed

lemma late_increment_nonneg:
  fixes u nm x :: real
  assumes "0 \<le> u" and "nm \<le> 3" and "3 \<le> x"
  shows "0 \<le> 1 / 100 + 1 / 50 * u + 1 / 200 * (x + 1) - 1 / 100 * nm"
  using assms by argo

lemma acc_at_lower:
  assumes "\<forall>j. 0 \<le> g j \<and> g j \<le> 1" and "nm \<le> 3"
  shows "2 / 5 - 3 / 200 * real (min r 3) \<le> acc_at g nm n k c r"
proof (induction r)
  case 0
  from assms(1) have "0 \<le> g (k + c)" by simp
  then show ?case by simp
next
  case (Suc r)
  let ?a = "acc_at g nm n k c r"
  let ?u = "g (k + n + r * n + c)"
  let ?x = "?a + (1 / 100 + 1 / 50 * ?u + 1 / 200 * (real r + 1) - 1 / 100 * nm)"
  from assms(1) have u: "0 \<le> ?u" by simp
  have step: "acc_at g nm n k c (Suc r) = min ?x 1"
    by (simp add: step_acc_def algebra_simps)
  consider "r = 0" | "r = 1" | "r = 2" | "3 \<le> r" by linarith
  then have "2 / 5 - 3 / 200 * real (min (Suc r) 3) \<le> ?x"
  proof cases
    case 1
    with Suc.IH u assms(2) show ?thesis by simp
  next
    case 2
    with Suc.IH u assms(2) show ?thesis by simp
  next
    case 3
    with Suc.IH u assms(2) show ?thesis by simp
  next
    case 4
    then have r: "3 \<le> real r" by simp
    from 4 have m: "min r 3 = 3" "min (Suc r) 3 = 3" by simp_all
    from u assms(2) r
    have "0 \<le> 1 / 100 + 1 / 50 * ?u + 1 / 200 * (real r + 1) - 1 / 100 * nm"
      by (rule late_increment_nonneg)
    with Suc.IH show ?thesis unfolding m by (rule order_trans [OF _ add_increasing2 [OF _ order_refl]])
  qed
  moreover have "2 / 5 - 3 / 200 * real (min (Suc r) 3) \<le> 1"
  proof -
    have "0 \<le> real (min (Suc r) 3)" by simp
    then show ?thesis by linarith
  qed
  ultimately show ?case unfolding step by simp
qed

lemma acc_at_nonneg:
  assumes "\<forall>j. 0 \<le> g j \<and> g j \<le> 1" and "nm \<le> 3"
  shows "0 \<le> acc_at g nm n k c r"
proof -
  have "real (min r 3) \<le> 3" by simp
  with acc_at_lower [OF assms, of r n k c] show ?thesis by linarith
qed

lemma sum_list_bounds:
  assumes "\<forall>x \<in> set xs. a \<le> x \<and> x \<le> b"
  shows "a * real (length xs) \<le> sum_list xs \<and> sum_list xs \<le> b * real (length xs)"
  using assms by (induction xs) (auto simp: algebra_simps)


lemma length_round_accs: "length (round_accs g nm n k r) = n"
  by (simp add: round_accs_def)

lemma upto_rounds: "[1..nr] = map int [1..<Suc (nat nr)]"
  using range_py_rounds [of nr] by (simp add: range_py_def)

lemma sorted_wrt_map_upt:
  fixes f :: "nat \<Rightarrow> real"
  assumes "\<And>i j. i < j \<Longrightarrow> f i < f j"
  shows "sorted_wrt (<) (map f [a..<b])"
proof -
  have "sorted_wrt (\<lambda>x y. f x < f y) [a..<b]"
    by (rule sorted_wrt_mono_rel [of _ "(<)"]) (simp_all add: assms)
  then show ?thesis by (simp only: sorted_wrt_map)
qed

lemma run_rounds_nth:
  assumes "r \<in> {1..m}"
  shows "map (record_at g nc nm k) [1..<Suc m] ! (r - 1) = record_at g nc nm k r"
  using assms by (intro nth_rounds) simp_all

lemma run_tracks_nth:
  assumes "c < n" and "r \<le> m"
  shows "map (\<lambda>c. map (f c) [0..<Suc m]) [0..<n] ! c ! r = f c r"
proof -
  from assms(1) have "map (\<lambda>c. map (f c) [0..<Suc m]) [0..<n] ! c = map (f c) [0..<Suc m]"
    by simp
  moreover from assms(2) have "r < Suc m" by simp
  then have "map (f c) [0..<Suc m] ! r = f c (0 + r)"
    unfolding length_upt [symmetric, of 0 "Suc m"] minus_nat.diff_0
    by (metis add_0 diff_zero nth_map_upt)
  ultimately show ?thesis by simp
qed

lemma acc_at_step:
  assumes "1 \<le> r"
  shows "acc_at g nm n k c r =
     min (acc_at g nm n k c (r - 1) + uniform_draw g 0.01 0.03 (k + n + (r - 1) * n + c)
            + 0.005 * real r - 0.01 * nm) 1.0"
proof -
  from assms obtain r' where r: "r = Suc r'" by (cases r) simp_all
  show ?thesis
    unfolding r by (simp add: step_acc_def uniform_draw_eq algebra_simps)
qed

lemma run_tracks_set:
  assumes "t \<in> set (map (\<lambda>c. map (f c) [0..<Suc m]) [0..<n])"
  shows "\<exists>c < n. t = map (f c) [0..<Suc m]"
  using assms by auto

text \<open>A run in which an accuracy falls below 0: one client, one round, noise multiplier
  50, and a random source that always returns 0 (so the seed is 0.4 and the increment
  \<open>0.01 + 0.005 - 0.5\<close>).\<close>

lemma negative_run:
  "simulate_federated_training (\<lambda>j. 0) 1 50 1 \<lparr>rng_calls = 0, slept = 0\<rparr> =
     Inr (([\<lparr>rr_round = 1, rr_global_accuracy = - (17 / 200), rr_epsilon_advanced = 1 / 10,
             rr_epsilon_naive = 7 / 10, rr_client_accuracies = [- (17 / 200)]\<rparr>],
           [[2 / 5, - (17 / 200)]]),
          \<lparr>rng_calls = 2, slept = 1 / 2\<rparr>)"
  by (simp add: simulate_federated_training_def range_py_def round_body_def client_body_def
      index_py_def random_uniform_def random_random_def time_sleep_def Let_def)

section \<open>The properties of the specification\<close>

text \<open>
  C1. For every configuration with at least one client and one round, and every round
  \<open>r\<close> from 1 to the number of rounds, the global accuracy recorded for round \<open>r\<close> is the
  arithmetic mean of the per-client accuracies recorded in that same record. The run
  returns, the record of round \<open>r\<close> is the one at position \<open>r - 1\<close>, and it holds one
  accuracy per client.
\<close>

theorem global_accuracy_is_mean:
  assumes "1 \<le> num_clients" and "1 \<le> num_rounds"
  shows "\<exists>res tracks w'.
     simulate_federated_training g num_clients noise_multiplier num_rounds w =
       Inr ((res, tracks), w') \<and>
     length res = nat num_rounds \<and>
     (\<forall>r \<in> {1..nat num_rounds}.
        rr_round (res ! (r - 1)) = int r \<and>
        length (rr_client_accuracies (res ! (r - 1))) = nat num_clients \<and>
        rr_global_accuracy (res ! (r - 1)) =
          arithmetic_mean (rr_client_accuracies (res ! (r - 1))))"
proof -
  define res where
    "res = map (record_at g num_clients noise_multiplier (rng_calls w)) [1..<Suc (nat num_rounds)]"
  from assms(1) have nz: "num_clients \<noteq> 0" by simp
  from assms(1) have cast: "real (nat num_clients) = real_of_int num_clients" by simp
  have run: "\<exists>tracks w'.
     simulate_federated_training g num_clients noise_multiplier num_rounds w =
       Inr ((res, tracks), w')"
    unfolding simulate_closed [OF nz] res_def by simp
  have len: "length res = nat num_rounds" by (simp add: res_def)
  have "rr_round (res ! (r - 1)) = int r \<and>
        length (rr_client_accuracies (res ! (r - 1))) = nat num_clients \<and>
        rr_global_accuracy (res ! (r - 1)) =
          arithmetic_mean (rr_client_accuracies (res ! (r - 1)))"
    if "r \<in> {1..nat num_rounds}" for r
    unfolding res_def run_rounds_nth [OF that]
    by (simp add: record_at_def arithmetic_mean_def length_round_accs cast)
  with run len show ?thesis by blast
qed

theorem global_accuracy_is_mean_witness:
  "(1::int) \<le> 2 \<and> (1::int) \<le> 3 \<and>
   (\<exists>res tracks w'.
     simulate_federated_training (\<lambda>j. 1 / 2) 2 1 3 \<lparr>rng_calls = 0, slept = 0\<rparr> =
       Inr ((res, tracks), w') \<and>
     length res = nat 3 \<and>
     (\<forall>r \<in> {1..nat 3}.
        rr_round (res ! (r - 1)) = int r \<and>
        length (rr_client_accuracies (res ! (r - 1))) = nat 2 \<and>
        rr_global_accuracy (res ! (r - 1)) =
          arithmetic_mean (rr_client_accuracies (res ! (r - 1)))))"
proof -
  have a: "(1::int) \<le> 2" and b: "(1::int) \<le> 3" by simp_all
  from global_accuracy_is_mean [OF a b, of "\<lambda>j. 1 / 2" 1 "\<lparr>rng_calls = 0, slept = 0\<rparr>"]
  show ?thesis by (rule conjI [OF a conjI [OF b]])
qed




text \<open>
  C3. For every client \<open>c\<close> and every round \<open>r\<close> from 1 to the number of rounds, the entry
  the round appends to the client's track is the previous entry plus the round's draw
  from \<open>[0.01, 0.03]\<close> plus \<open>0.005 * r\<close> minus \<open>0.01 * noise_multiplier\<close>, cut off at 1.
  The draw is the one the random source serves at call
  \<open>num_clients + (r - 1) * num_clients + c\<close> of the run. Nothing cuts the value off
  below: some run produces a negative entry.
\<close>

theorem client_update_rule:
  assumes "1 \<le> num_clients"
  shows "(\<exists>res tracks w'.
     simulate_federated_training g num_clients noise_multiplier num_rounds w =
       Inr ((res, tracks), w') \<and>
     (\<forall>c < nat num_clients. \<forall>r \<in> {1..nat num_rounds}.
        tracks ! c ! r =
          min (tracks ! c ! (r - 1)
                 + uniform_draw g 0.01 0.03
                     (rng_calls w + nat num_clients + (r - 1) * nat num_clients + c)
                 + 0.005 * real r - 0.01 * noise_multiplier) 1.0)) \<and>
   (\<exists>g' nc nm nr w0 res tracks w' c r.
     simulate_federated_training g' nc nm nr w0 = Inr ((res, tracks), w') \<and>
     c < nat nc \<and> r \<in> {1..nat nr} \<and> tracks ! c ! r < 0)"
proof
  define tracks where
    "tracks = map (\<lambda>c. map (acc_at g noise_multiplier (nat num_clients) (rng_calls w) c)
                [0..<Suc (nat num_rounds)]) [0..<nat num_clients]"
  from assms have nz: "num_clients \<noteq> 0" by simp
  have run: "\<exists>res w'.
     simulate_federated_training g num_clients noise_multiplier num_rounds w =
       Inr ((res, tracks), w')"
    unfolding simulate_closed [OF nz] tracks_def by simp
  have "tracks ! c ! r =
          min (tracks ! c ! (r - 1)
                 + uniform_draw g 0.01 0.03
                     (rng_calls w + nat num_clients + (r - 1) * nat num_clients + c)
                 + 0.005 * real r - 0.01 * noise_multiplier) 1.0"
    if c: "c < nat num_clients" and r: "r \<in> {1..nat num_rounds}" for c r
  proof -
    from r have "r \<le> nat num_rounds" and "r - 1 \<le> nat num_rounds" and "1 \<le> r" by auto
    then show ?thesis
      unfolding tracks_def run_tracks_nth [OF c \<open>r \<le> nat num_rounds\<close>]
        run_tracks_nth [OF c \<open>r - 1 \<le> nat num_rounds\<close>]
      by (intro acc_at_step)
  qed
  with run show "\<exists>res tracks w'.
     simulate_federated_training g num_clients noise_multiplier num_rounds w =
       Inr ((res, tracks), w') \<and>
     (\<forall>c < nat num_clients. \<forall>r \<in> {1..nat num_rounds}.
        tracks ! c ! r =
          min (tracks ! c ! (r - 1)
                 + uniform_draw g 0.01 0.03
                     (rng_calls w + nat num_clients + (r - 1) * nat num_clients + c)
                 + 0.005 * real r - 0.01 * noise_multiplier) 1.0)"
    by blast
next
  have "(0::nat) < nat 1" and "(1::nat) \<in> {1..nat 1}"
    and "[[2 / 5, - (17 / 200)]] ! 0 ! 1 < (0::real)"
    by simp_all
  with negative_run show "\<exists>g' nc nm nr w0 res tracks w' c r.
     simulate_federated_training g' nc nm nr w0 = Inr ((res, tracks), w') \<and>
     c < nat nc \<and> r \<in> {1..nat nr} \<and> tracks ! c ! r < 0"
    by blast
qed

theorem client_update_rule_witness:
  "(1::int) \<le> 2 \<and>
   ((\<exists>res tracks w'.
     simulate_federated_training (\<lambda>j. 1 / 2) 2 1 3 \<lparr>rng_calls = 0, slept = 0\<rparr> =
       Inr ((res, tracks), w') \<and>
     (\<forall>c < nat 2. \<forall>r \<in> {1..nat 3}.
        tracks ! c ! r =
          min (tracks ! c ! (r - 1)
                 + uniform_draw (\<lambda>j. 1 / 2) 0.01 0.03
                     (rng_calls \<lparr>rng_calls = 0, slept = 0\<rparr> + nat 2 + (r - 1) * nat 2 + c)
                 + 0.005 * real r - 0.01 * 1) 1.0)) \<and>
   (\<exists>g' nc nm nr w0 res tracks w' c r.
     simulate_federated_training g' nc nm nr w0 = Inr ((res, tracks), w') \<and>
     c < nat nc \<and> r \<in> {1..nat nr} \<and> tracks ! c ! r < 0))"
proof -
  have a: "(1::int) \<le> 2" by simp
  from client_update_rule [OF a, of "\<lambda>j. 1 / 2" 1 3 "\<lparr>rng_calls = 0, slept = 0\<rparr>"]
  show ?thesis by (rule conjI [OF a])
qed

text \<open>
  C4. For every configuration on which the run returns (\<open>num_clients \<noteq> 0\<close>) and every
  round \<open>r\<close>, the advanced epsilon recorded at round \<open>r\<close> is the sum over \<open>i = 1..r\<close> of
  \<open>max (0.2 + 0.1 * i - 0.05 * noise_multiplier) 0.1\<close>, and the naive epsilon is the sum
  over \<open>i = 1..r\<close> of \<open>0.5 + 0.2 * i\<close>.
\<close>

theorem epsilon_running_sums:
  assumes "num_clients \<noteq> 0"
  shows "\<exists>res tracks w'.
     simulate_federated_training g num_clients noise_multiplier num_rounds w =
       Inr ((res, tracks), w') \<and>
     length res = nat num_rounds \<and>
     (\<forall>r \<in> {1..nat num_rounds}.
        rr_round (res ! (r - 1)) = int r \<and>
        rr_epsilon_advanced (res ! (r - 1)) =
          (\<Sum>i = 1..r. max (0.2 + 0.1 * real i - 0.05 * noise_multiplier) 0.1) \<and>
        rr_epsilon_naive (res ! (r - 1)) = (\<Sum>i = 1..r. 0.5 + 0.2 * real i))"
proof -
  define res where
    "res = map (record_at g num_clients noise_multiplier (rng_calls w)) [1..<Suc (nat num_rounds)]"
  have run: "\<exists>tracks w'.
     simulate_federated_training g num_clients noise_multiplier num_rounds w =
       Inr ((res, tracks), w')"
    unfolding simulate_closed [OF assms] res_def by simp
  have len: "length res = nat num_rounds" by (simp add: res_def)
  have "rr_round (res ! (r - 1)) = int r \<and>
        rr_epsilon_advanced (res ! (r - 1)) =
          (\<Sum>i = 1..r. max (0.2 + 0.1 * real i - 0.05 * noise_multiplier) 0.1) \<and>
        rr_epsilon_naive (res ! (r - 1)) = (\<Sum>i = 1..r. 0.5 + 0.2 * real i)"
    if "r \<in> {1..nat num_rounds}" for r
    unfolding res_def run_rounds_nth [OF that]
    by (simp add: record_at_def eps_adv_at_sum eps_naive_at_sum)
  with run len show ?thesis by blast
qed

theorem epsilon_running_sums_witness:
  "(2::int) \<noteq> 0 \<and>
   (\<exists>res tracks w'.
     simulate_federated_training (\<lambda>j. 1 / 2) 2 1 3 \<lparr>rng_calls = 0, slept = 0\<rparr> =
       Inr ((res, tracks), w') \<and>
     length res = nat 3 \<and>
     (\<forall>r \<in> {1..nat 3}.
        rr_round (res ! (r - 1)) = int r \<and>
        rr_epsilon_advanced (res ! (r - 1)) =
          (\<Sum>i = 1..r. max (0.2 + 0.1 * real i - 0.05 * 1) 0.1) \<and>
        rr_epsilon_naive (res ! (r - 1)) = (\<Sum>i = 1..r. 0.5 + 0.2 * real i)))"
proof -
  have a: "(2::int) \<noteq> 0" by simp
  from epsilon_running_sums [OF a, of "\<lambda>j. 1 / 2" 1 3 "\<lparr>rng_calls = 0, slept = 0\<rparr>"]
  show ?thesis by (rule conjI [OF a])
qed

text \<open>
  C5. For every configuration with at least one round and a noise multiplier that is not
  negative, the advanced epsilons and the naive epsilons of the returned records are each
  strictly increasing in the round.
\<close>

theorem epsilon_strictly_increasing:
  assumes "1 \<le> num_rounds" and "0 \<le> noise_multiplier" and "num_clients \<noteq> 0"
  shows "\<exists>res tracks w'.
     simulate_federated_training g num_clients noise_multiplier num_rounds w =
       Inr ((res, tracks), w') \<and>
     length res = nat num_rounds \<and>
     sorted_wrt (<) (map rr_epsilon_advanced res) \<and>
     sorted_wrt (<) (map rr_epsilon_naive res)"
proof -
  define res where
    "res = map (record_at g num_clients noise_multiplier (rng_calls w)) [1..<Suc (nat num_rounds)]"
  have run: "\<exists>tracks w'.
     simulate_federated_training g num_clients noise_multiplier num_rounds w =
       Inr ((res, tracks), w')"
    unfolding simulate_closed [OF assms(3)] res_def by simp
  have len: "length res = nat num_rounds" by (simp add: res_def)
  have "map rr_epsilon_advanced res = map (eps_adv_at noise_multiplier) [1..<Suc (nat num_rounds)]"
    unfolding res_def by (simp add: record_at_def comp_def del: upt_Suc)
  then have adv: "sorted_wrt (<) (map rr_epsilon_advanced res)"
    by (simp only: sorted_wrt_map_upt [OF eps_adv_at_less])
  have "map rr_epsilon_naive res = map eps_naive_at [1..<Suc (nat num_rounds)]"
    unfolding res_def by (simp add: record_at_def comp_def del: upt_Suc)
  then have naive: "sorted_wrt (<) (map rr_epsilon_naive res)"
    by (simp only: sorted_wrt_map_upt [OF eps_naive_at_less])
  from run len adv naive show ?thesis by blast
qed

theorem epsilon_strictly_increasing_witness:
  "(1::int) \<le> 3 \<and> (0::real) \<le> 1 \<and> (2::int) \<noteq> 0 \<and>
   (\<exists>res tracks w'.
     simulate_federated_training (\<lambda>j. 1 / 2) 2 1 3 \<lparr>rng_calls = 0, slept = 0\<rparr> =
       Inr ((res, tracks), w') \<and>
     length res = nat 3 \<and>
     sorted_wrt (<) (map rr_epsilon_advanced res) \<and>
     sorted_wrt (<) (map rr_epsilon_naive res))"
proof -
  have a: "(1::int) \<le> 3" by simp
  have b: "(0::real) \<le> 1" by simp
  have c: "(2::int) \<noteq> 0" by simp
  from epsilon_strictly_increasing [OF a b c, of "\<lambda>j. 1 / 2" "\<lparr>rng_calls = 0, slept = 0\<rparr>"]
  show ?thesis by (rule conjI [OF a conjI [OF b conjI [OF c]]])
qed

text \<open>
  C6. For every configuration with at least one client and one round, the run returns one
  record per round, numbered 1 to \<open>num_rounds\<close> in this order, and one track per client,
  each of length \<open>num_rounds + 1\<close>.
\<close>

theorem run_shape:
  assumes "1 \<le> num_clients" and "1 \<le> num_rounds"
  shows "\<exists>res tracks w'.
     simulate_federated_training g num_clients noise_multiplier num_rounds w =
       Inr ((res, tracks), w') \<and>
     length res = nat num_rounds \<and>
     map rr_round res = [1..num_rounds] \<and>
     length tracks = nat num_clients \<and>
     (\<forall>t \<in> set tracks. length t = nat num_rounds + 1)"
proof -
  from assms(1) have nz: "num_clients \<noteq> 0" by simp
  have rounds: "map rr_round (map (record_at g num_clients noise_multiplier (rng_calls w))
                  [1..<Suc (nat num_rounds)]) = [1..num_rounds]"
    unfolding upto_rounds by (simp add: record_at_def comp_def del: upt_Suc)
  show ?thesis
    unfolding simulate_closed [OF nz]
    using rounds by (simp del: upt_Suc)
qed

theorem run_shape_witness:
  "(1::int) \<le> 2 \<and> (1::int) \<le> 3 \<and>
   (\<exists>res tracks w'.
     simulate_federated_training (\<lambda>j. 1 / 2) 2 1 3 \<lparr>rng_calls = 0, slept = 0\<rparr> =
       Inr ((res, tracks), w') \<and>
     length res = nat 3 \<and>
     map rr_round res = [1..3] \<and>
     length tracks = nat 2 \<and>
     (\<forall>t \<in> set tracks. length t = nat 3 + 1))"
proof -
  have a: "(1::int) \<le> 2" by simp
  have b: "(1::int) \<le> 3" by simp
  from run_shape [OF a b, of "\<lambda>j. 1 / 2" 1 "\<lparr>rng_calls = 0, slept = 0\<rparr>"]
  show ?thesis by (rule conjI [OF a conjI [OF b]])
qed

text \<open>
  C7. For every configuration with at least one client and one round and a noise
  multiplier between 0 and 3, and for every random source whose numbers lie in \<open>[0, 1]\<close>
  (so that every seed lies in \<open>[0.4, 0.6]\<close> and every increment draw in \<open>[0.01, 0.03]\<close>),
  the global accuracy of every round lies in \<open>[0, 1]\<close>.
\<close>

theorem global_accuracy_in_unit_interval:
  assumes "1 \<le> num_clients" and "1 \<le> num_rounds"
    and "0 \<le> noise_multiplier" and "noise_multiplier \<le> 3"
    and "\<forall>j. 0 \<le> g j \<and> g j \<le> 1"
  shows "\<exists>res tracks w'.
     simulate_federated_training g num_clients noise_multiplier num_rounds w =
       Inr ((res, tracks), w') \<and>
     length res = nat num_rounds \<and>
     (\<forall>rr \<in> set res. 0 \<le> rr_global_accuracy rr \<and> rr_global_accuracy rr \<le> 1)"
proof -
  define res where
    "res = map (record_at g num_clients noise_multiplier (rng_calls w)) [1..<Suc (nat num_rounds)]"
  from assms(1) have nz: "num_clients \<noteq> 0" by simp
  from assms(1) have cast: "real (nat num_clients) = real_of_int num_clients"
    and pos: "0 < real_of_int num_clients" by simp_all
  have run: "\<exists>tracks w'.
     simulate_federated_training g num_clients noise_multiplier num_rounds w =
       Inr ((res, tracks), w')"
    unfolding simulate_closed [OF nz] res_def by simp
  have len: "length res = nat num_rounds" by (simp add: res_def)
  have "0 \<le> rr_global_accuracy rr \<and> rr_global_accuracy rr \<le> 1" if "rr \<in> set res" for rr
  proof -
    from that obtain r where rr: "rr = record_at g num_clients noise_multiplier (rng_calls w) r"
      unfolding res_def by auto
    let ?xs = "round_accs g noise_multiplier (nat num_clients) (rng_calls w) r"
    have "\<forall>x \<in> set ?xs. 0 \<le> x \<and> x \<le> 1"
      unfolding round_accs_def
      using acc_at_nonneg [OF assms(5,4)] acc_at_le_1 [OF assms(5)] by auto
    from sum_list_bounds [OF this]
    have "0 \<le> sum_list ?xs" and "sum_list ?xs \<le> real_of_int num_clients"
      by (simp_all add: length_round_accs cast)
    with pos have "0 \<le> sum_list ?xs / real_of_int num_clients"
      and "sum_list ?xs / real_of_int num_clients \<le> 1"
      by simp_all
    then show ?thesis unfolding rr by (simp add: record_at_def)
  qed
  with run len show ?thesis by blast
qed

theorem global_accuracy_in_unit_interval_witness:
  "(1::int) \<le> 2 \<and> (1::int) \<le> 3 \<and> (0::real) \<le> 1 \<and> (1::real) \<le> 3 \<and> (\<forall>j::nat. (0::real) \<le> 1 / 2 \<and> (1 / 2::real) \<le> 1) \<and>
   (\<exists>res tracks w'.
     simulate_federated_training (\<lambda>j. 1 / 2) 2 1 3 \<lparr>rng_calls = 0, slept = 0\<rparr> =
       Inr ((res, tracks), w') \<and>
     length res = nat 3 \<and>
     (\<forall>rr \<in> set res. 0 \<le> rr_global_accuracy rr \<and> rr_global_accuracy rr \<le> 1))"
proof -
  have a: "(1::int) \<le> 2" by simp
  have b: "(1::int) \<le> 3" by simp
  have c: "(0::real) \<le> 1" by simp
  have d: "(1::real) \<le> 3" by simp
  have e: "\<forall>j::nat. (0::real) \<le> 1 / 2 \<and> (1 / 2::real) \<le> 1" by simp
  from global_accuracy_in_unit_interval [OF a b c d e, of "\<lparr>rng_calls = 0, slept = 0\<rparr>"]
  show ?thesis by (rule conjI [OF a conjI [OF b conjI [OF c conjI [OF d conjI [OF e]]]]])
qed

text \<open>
  C8 (as amended). For every configuration on which the run returns and every random
  source whose numbers lie in \<open>[0, 1]\<close>, every track starts with a seed in \<open>[0.4, 0.6]\<close> and
  none of its entries exceeds 1; when the noise multiplier is at most 3, no entry is
  negative either. For a larger noise multiplier nothing bounds the entries below.
\<close>

theorem track_entries_bounds:
  assumes "num_clients \<noteq> 0" and "\<forall>j. 0 \<le> g j \<and> g j \<le> 1"
  shows "\<exists>res tracks w'.
     simulate_federated_training g num_clients noise_multiplier num_rounds w =
       Inr ((res, tracks), w') \<and>
     length tracks = nat num_clients \<and>
     (\<forall>t \<in> set tracks.
        length t = nat num_rounds + 1 \<and>
        0.4 \<le> t ! 0 \<and> t ! 0 \<le> 0.6 \<and>
        (\<forall>x \<in> set t. x \<le> 1) \<and>
        (noise_multiplier \<le> 3 \<longrightarrow> (\<forall>x \<in> set t. 0 \<le> x)))"
proof -
  define tracks where
    "tracks = map (\<lambda>c. map (acc_at g noise_multiplier (nat num_clients) (rng_calls w) c)
                [0..<Suc (nat num_rounds)]) [0..<nat num_clients]"
  have run: "\<exists>res w'.
     simulate_federated_training g num_clients noise_multiplier num_rounds w =
       Inr ((res, tracks), w')"
    unfolding simulate_closed [OF assms(1)] tracks_def by simp
  have len: "length tracks = nat num_clients" by (simp add: tracks_def)
  have "length t = nat num_rounds + 1 \<and>
        0.4 \<le> t ! 0 \<and> t ! 0 \<le> 0.6 \<and>
        (\<forall>x \<in> set t. x \<le> 1) \<and>
        (noise_multiplier \<le> 3 \<longrightarrow> (\<forall>x \<in> set t. 0 \<le> x))"
    if "t \<in> set tracks" for t
  proof -
    from that obtain c where
      t: "t = map (acc_at g noise_multiplier (nat num_clients) (rng_calls w) c)
                [0..<Suc (nat num_rounds)]"
      unfolding tracks_def using run_tracks_set by blast
    have l: "length t = nat num_rounds + 1" unfolding t by simp
    have "t ! 0 = acc_at g noise_multiplier (nat num_clients) (rng_calls w) c 0"
      unfolding t by (simp add: nth_append upt_conv_Cons del: upt_Suc)
    moreover from assms(2) have "0 \<le> g (rng_calls w + c)" and "g (rng_calls w + c) \<le> 1"
      by simp_all
    ultimately have seed: "0.4 \<le> t ! 0 \<and> t ! 0 \<le> 0.6"
      using acc_at_seed [of g "rng_calls w" c noise_multiplier "nat num_clients"] by simp
    have up: "\<forall>x \<in> set t. x \<le> 1"
      unfolding t using acc_at_le_1 [OF assms(2)] by auto
    have low: "\<forall>x \<in> set t. 0 \<le> x" if "noise_multiplier \<le> 3"
      unfolding t using acc_at_nonneg [OF assms(2) that] by auto
    from l seed up low show ?thesis by blast
  qed
  with run len show ?thesis by blast
qed

theorem track_entries_bounds_witness:
  "(2::int) \<noteq> 0 \<and> (\<forall>j::nat. (0::real) \<le> 1 / 2 \<and> (1 / 2::real) \<le> 1) \<and>
   (\<exists>res tracks w'.
     simulate_federated_training (\<lambda>j. 1 / 2) 2 1 3 \<lparr>rng_calls = 0, slept = 0\<rparr> =
       Inr ((res, tracks), w') \<and>
     length tracks = nat 2 \<and>
     (\<forall>t \<in> set tracks.
        length t = nat 3 + 1 \<and>
        0.4 \<le> t ! 0 \<and> t ! 0 \<le> 0.6 \<and>
        (\<forall>x \<in> set t. x \<le> 1) \<and>
        ((1::real) \<le> 3 \<longrightarrow> (\<forall>x \<in> set t. 0 \<le> x))))"
proof -
  have a: "(2::int) \<noteq> 0" by simp
  have b: "\<forall>j::nat. (0::real) \<le> 1 / 2 \<and> (1 / 2::real) \<le> 1" by simp
  from track_entries_bounds [OF a b, of 1 3 "\<lparr>rng_calls = 0, slept = 0\<rparr>"]
  show ?thesis by (rule conjI [OF a conjI [OF b]])
qed

text \<open>
  The claim as the specification states it fails: with the positive noise multiplier 100,
  one client, one round and draws at the lower ends of their intervals, the entry of round
  1 is negative.
\<close>

theorem track_entries_counterexample:
  "(0::real) < 100 \<and>
   simulate_federated_training (\<lambda>j. 0) 1 100 1 \<lparr>rng_calls = 0, slept = 0\<rparr> =
     Inr (([\<lparr>rr_round = 1, rr_global_accuracy = - (117 / 200), rr_epsilon_advanced = 1 / 10,
             rr_epsilon_naive = 7 / 10, rr_client_accuracies = [- (117 / 200)]\<rparr>],
           [[2 / 5, - (117 / 200)]]),
          \<lparr>rng_calls = 2, slept = 1 / 2\<rparr>) \<and>
   (- (117 / 200)::real) < 0"
  by (simp add: simulate_federated_training_def range_py_def round_body_def client_body_def
      index_py_def random_uniform_def random_random_def time_sleep_def Let_def)

text \<open>
  C9 (as amended). For every configuration with at least one client and one round, a run
  makes exactly \<open>num_clients + num_rounds * num_clients\<close> calls to the random source: one
  per seed and one per client and round. Its only other effect is the pause of half a
  second after each round.
\<close>

theorem random_calls_and_pauses:
  assumes "1 \<le> num_clients" and "1 \<le> num_rounds"
  shows "\<exists>res tracks w'.
     simulate_federated_training g num_clients noise_multiplier num_rounds w =
       Inr ((res, tracks), w') \<and>
     rng_calls w' = rng_calls w + (nat num_clients + nat num_rounds * nat num_clients) \<and>
     slept w' = slept w + 0.5 * real_of_int num_rounds"
proof -
  from assms(1) have nz: "num_clients \<noteq> 0" by simp
  show ?thesis
    unfolding simulate_closed [OF nz]
    using assms(2) by simp
qed

theorem random_calls_and_pauses_witness:
  "(1::int) \<le> 2 \<and> (1::int) \<le> 3 \<and>
   (\<exists>res tracks w'.
     simulate_federated_training (\<lambda>j. 1 / 2) 2 1 3 \<lparr>rng_calls = 0, slept = 0\<rparr> =
       Inr ((res, tracks), w') \<and>
     rng_calls w' = rng_calls \<lparr>rng_calls = 0, slept = 0\<rparr> + (nat 2 + nat 3 * nat 2) \<and>
     slept w' = slept \<lparr>rng_calls = 0, slept = 0\<rparr> + 0.5 * real_of_int 3)"
proof -
  have a: "(1::int) \<le> 2" by simp
  have b: "(1::int) \<le> 3" by simp
  from random_calls_and_pauses [OF a b, of "\<lambda>j. 1 / 2" 1 "\<lparr>rng_calls = 0, slept = 0\<rparr>"]
  show ?thesis by (rule conjI [OF a conjI [OF b]])
qed

text \<open>
  The claim as the specification states it fails: a run with one client and one round
  makes 2 calls to the random source, not \<open>2 * 1 + 1 * 1\<close>.
\<close>

theorem random_calls_counterexample:
  "simulate_federated_training (\<lambda>j. 0) 1 1 1 \<lparr>rng_calls = 0, slept = 0\<rparr> =
     Inr (([\<lparr>rr_round = 1, rr_global_accuracy = 81 / 200, rr_epsilon_advanced = 1 / 4,
             rr_epsilon_naive = 7 / 10, rr_client_accuracies = [81 / 200]\<rparr>],
           [[2 / 5, 81 / 200]]),
          \<lparr>rng_calls = 2, slept = 1 / 2\<rparr>) \<and>
   (2::nat) \<noteq> 2 * nat 1 + nat 1 * nat 1"
  by (simp add: simulate_federated_training_def range_py_def round_body_def client_body_def
      index_py_def random_uniform_def random_random_def time_sleep_def Let_def)

text \<open>
  C10. With at least one client and no round at all, the run does not fail: it returns no
  round record and one track per client, each holding the seed alone, a value in
  \<open>[0.4, 0.6]\<close> when the numbers of the random source lie in \<open>[0, 1]\<close>.
\<close>

theorem no_rounds_run_shape:
  assumes "1 \<le> num_clients" and "\<forall>j. 0 \<le> g j \<and> g j \<le> 1"
  shows "\<exists>tracks w'.
     simulate_federated_training g num_clients noise_multiplier 0 w = Inr (([], tracks), w') \<and>
     length tracks = nat num_clients \<and>
     (\<forall>t \<in> set tracks. length t = 1 \<and> 0.4 \<le> t ! 0 \<and> t ! 0 \<le> 0.6)"
proof -
  from assms(1) have nz: "num_clients \<noteq> 0" by simp
  have "0.4 \<le> acc_at g noise_multiplier (nat num_clients) (rng_calls w) c 0 \<and>
        acc_at g noise_multiplier (nat num_clients) (rng_calls w) c 0 \<le> 0.6" for c
    using assms(2) by (intro acc_at_seed) simp_all
  then show ?thesis
    unfolding simulate_closed [OF nz] by (simp del: acc_at.simps)
qed

theorem no_rounds_run_shape_witness:
  "(1::int) \<le> 2 \<and> (\<forall>j::nat. (0::real) \<le> 1 / 2 \<and> (1 / 2::real) \<le> 1) \<and>
   (\<exists>tracks w'.
     simulate_federated_training (\<lambda>j. 1 / 2) 2 1 0 \<lparr>rng_calls = 0, slept = 0\<rparr> = Inr (([], tracks), w') \<and>
     length tracks = nat 2 \<and>
     (\<forall>t \<in> set tracks. length t = 1 \<and> 0.4 \<le> t ! 0 \<and> t ! 0 \<le> 0.6))"
proof -
  have a: "(1::int) \<le> 2" by simp
  have b: "\<forall>j::nat. (0::real) \<le> 1 / 2 \<and> (1 / 2::real) \<le> 1" by simp
  from no_rounds_run_shape [OF a b, of 1 "\<lparr>rng_calls = 0, slept = 0\<rparr>"]
  show ?thesis by (rule conjI [OF a conjI [OF b]])
qed

end
